theory Spec2Isabelle
  imports Main "HOL-Library.Word"
begin

section \<open>Python values used by the retrieval engine\<close>

text \<open>
  A Python \<open>str\<close> is modelled as a \<open>string\<close> whose characters are the code points below
  256 (the Latin-1 range); the separator \<open>:\<close> is code point 58 and the line terminator
  \<open>\n\<close> is code point 10. Python integers are unbounded, hence \<open>int\<close>. Every exception
  the engine can raise is a constructor of \<open>error\<close>, named as Python names it.
  In the words of the specification: \<open>ValueError\<close> raised while decoding an index line is
  \<open>MalformedIndexLine\<close>, \<open>KeyError\<close> is \<open>UnknownChunkOffset\<close>, \<open>OSError\<close> raised by the
  decompressor is \<open>CorruptChunk\<close>, and \<open>StopIteration\<close> is \<open>ArticleNotFoundInChunk\<close>.
\<close>

datatype error =
    ValueError
  | KeyError
  | OSError
  | UnicodeDecodeError
  | ParseError
  | AttributeError
  | TypeError
  | StopIteration

definition nl :: char where
  "nl = CHR 0x0A"

subsection \<open>\<open>str.find\<close> and slicing\<close>

text \<open>\<open>s.find(c)\<close>: the index of the first occurrence of \<open>c\<close>, or \<open>-1\<close> when there is none.\<close>

fun py_find :: "string \<Rightarrow> char \<Rightarrow> int" where
  "py_find [] c = -1"
| "py_find (x # xs) c =
     (if x = c then 0
      else (let r = py_find xs c in if r = -1 then -1 else r + 1))"

text \<open>
  A slice bound \<open>i\<close> on a sequence of length \<open>n\<close>: a negative bound counts from the end,
  and every bound is clamped to \<open>0 .. n\<close>.
\<close>

definition py_bound :: "nat \<Rightarrow> int \<Rightarrow> nat" where
  "py_bound n i = (if i < 0 then nat (int n + i) else min n (nat i))"

text \<open>\<open>xs[i:j]\<close> and \<open>xs[i:]\<close>.\<close>

definition py_slice :: "'a list \<Rightarrow> int \<Rightarrow> int \<Rightarrow> 'a list" where
  "py_slice xs i j =
     (let a = py_bound (length xs) i; b = py_bound (length xs) j
      in take (b - a) (drop a xs))"

definition py_slice_from :: "'a list \<Rightarrow> int \<Rightarrow> 'a list" where
  "py_slice_from xs i = drop (py_bound (length xs) i) xs"

subsection \<open>\<open>int(str)\<close>\<close>

text \<open>
  \<open>int(s)\<close> in base 10 accepts: optional white space, an optional sign, decimal digits in
  which single underscores may separate digits, optional white space. Anything else raises
  \<open>ValueError\<close> (here: \<open>None\<close>). The white space that \<open>int\<close> skips is, in the Latin-1
  range, the code points 9 to 13, 32, 133 and 160. The limit that recent interpreters
  put on the number of digits is a setting of the interpreter and is not modelled.
\<close>

definition is_space :: "char \<Rightarrow> bool" where
  "is_space c =
     (let n = (of_char c :: nat)
      in (9 \<le> n \<and> n \<le> 13) \<or> n = 32 \<or> n = 133 \<or> n = 160)"

definition is_digit :: "char \<Rightarrow> bool" where
  "is_digit c = (let n = (of_char c :: nat) in 48 \<le> n \<and> n \<le> 57)"

definition digit_value :: "char \<Rightarrow> int" where
  "digit_value c = int (of_char c) - 48"

definition decimal_value :: "string \<Rightarrow> int" where
  "decimal_value ds = foldl (\<lambda>n c. 10 * n + digit_value c) 0 ds"

fun valid_digits :: "string \<Rightarrow> bool" where
  "valid_digits [] = False"
| "valid_digits [c] = is_digit c"
| "valid_digits (c # d # cs) =
     (if is_digit c
      then (if d = CHR ''_'' then valid_digits cs else valid_digits (d # cs))
      else False)"

definition is_sign :: "char \<Rightarrow> bool" where
  "is_sign c = (c = CHR ''+'' \<or> c = CHR ''-'')"

definition is_numeral_char :: "char \<Rightarrow> bool" where
  "is_numeral_char c = (is_digit c \<or> c = CHR ''_'')"

definition py_int :: "string \<Rightarrow> int option" where
  "py_int s =
     (let s1 = dropWhile is_space s;
          negative = (s1 \<noteq> [] \<and> hd s1 = CHR ''-'');
          s2 = (if s1 \<noteq> [] \<and> is_sign (hd s1) then tl s1 else s1);
          body = takeWhile is_numeral_char s2;
          rest = dropWhile is_numeral_char s2
      in if valid_digits body \<and> list_all is_space rest
         then Some ((if negative then - 1 else 1) * decimal_value (filter is_digit body))
         else None)"

subsection \<open>\<open>str.lower\<close>\<close>

text \<open>
  In the Latin-1 range the upper-case characters are \<open>A\<close> to \<open>Z\<close> (65 to 90) and the
  code points 192 to 222 except the multiplication sign 215; each has its lower-case
  form 32 code points above it, and \<open>lower\<close> leaves every other character alone.
\<close>

definition is_upper :: "char \<Rightarrow> bool" where
  "is_upper c =
     (let n = (of_char c :: nat)
      in (65 \<le> n \<and> n \<le> 90) \<or> (192 \<le> n \<and> n \<le> 222 \<and> n \<noteq> 215))"

definition lower_char :: "char \<Rightarrow> char" where
  "lower_char c = (if is_upper c then char_of ((of_char c :: nat) + 32) else c)"

definition py_lower :: "string \<Rightarrow> string" where
  "py_lower s = map lower_char s"

section \<open>The index line codec\<close>

record IndexEntry =
  file_offset :: int
  page_id :: int
  article_name :: string

text \<open>
  \<open>split_index_parts\<close>: \<open>end = line.find(':')\<close>, then \<open>(line[0 : end], line[end + 1 :])\<close>.
  When the line has no separator, \<open>end\<close> is \<open>-1\<close> and the two slices are the line without
  its last character and the whole line.
\<close>

definition split_index_parts :: "string \<Rightarrow> string \<times> string" where
  "split_index_parts line =
     (let end = py_find line CHR '':''
      in (py_slice line 0 end, py_slice_from line (end + 1)))"

text \<open>
  \<open>parse_index_line\<close>: two splits in sequence, then
  \<open>IndexEntry(int(file_offset), int(page_id), article_name_nl[:-1])\<close>.
\<close>

definition parse_index_line :: "string \<Rightarrow> error + IndexEntry" where
  "parse_index_line file_offset_page_id_article_name_nl =
     (let (file_offset_str, page_id_article_name_nl) =
            split_index_parts file_offset_page_id_article_name_nl;
          (page_id_str, article_name_nl) = split_index_parts page_id_article_name_nl
      in case py_int file_offset_str of
           None \<Rightarrow> Inl ValueError
         | Some fo \<Rightarrow>
             (case py_int page_id_str of
                None \<Rightarrow> Inl ValueError
              | Some pid \<Rightarrow>
                  Inr \<lparr>file_offset = fo, page_id = pid,
                       article_name = py_slice article_name_nl 0 (- 1)\<rparr>))"

subsection \<open>Predicates over index entries\<close>

text \<open>
  \<open>exact_match_smart_predicate\<close> returns one of two closures: the case-insensitive
  \<open>ci_ret\<close> when \<open>text == text.lower()\<close>, the case-sensitive \<open>cs_ret\<close> otherwise.
\<close>

definition exact_match_smart_predicate :: "string \<Rightarrow> IndexEntry \<Rightarrow> bool" where
  "exact_match_smart_predicate text =
     (let ci_ret = (\<lambda>entry. py_lower text = py_lower (article_name entry));
          cs_ret = (\<lambda>entry. text = article_name entry)
      in if text = py_lower text then ci_ret else cs_ret)"

section \<open>The database\<close>

text \<open>
  \<open>WikiDb\<close> holds the two open files and the offset map. A file is modelled by its
  content: the index file by its text as the text layer delivers it (line ends already
  translated to \<open>\n\<close>), the archive by its bytes. Every access of the source seeks before
  it reads (\<open>seek(0)\<close> before each scan of the index, \<open>seek(begin)\<close> before each chunk read,
  and \<open>get_file_size\<close> restores the position it found), so no result depends on the
  position a previous call left behind and the cursor is not part of the state.
\<close>

type_synonym byte = "8 word"

record WikiDb =
  index_file :: string
  wiki_file :: "byte list"
  offset_map :: "int \<rightharpoonup> int"

definition get_file_size :: "byte list \<Rightarrow> int" where
  "get_file_size f = int (length f)"

text \<open>
  Iterating a text file yields its lines, each with its line terminator; the last line
  is yielded without one when the file does not end in \<open>\n\<close>.
\<close>

fun file_lines :: "string \<Rightarrow> string list" where
  "file_lines [] = []"
| "file_lines (c # cs) =
     (if c = nl then [c] # file_lines cs
      else (case file_lines cs of
              [] \<Rightarrow> [[c]]
            | l # ls \<Rightarrow> (c # l) # ls))"

subsection \<open>The offset map\<close>

text \<open>
  The loop of \<open>__load_offset_map\<close>, over the lines still to read, with the dictionary and
  \<open>previous\<close> as its state (\<open>omap\<close> is the source's \<open>offset_map\<close>, \<open>offs\<close> its
  \<open>file_offset\<close>). \<open>int(file_offset_str)\<close> may raise.
\<close>

fun offset_map_loop ::
  "string list \<Rightarrow> (int \<rightharpoonup> int) \<Rightarrow> int \<Rightarrow> error + ((int \<rightharpoonup> int) \<times> int)" where
  "offset_map_loop [] omap previous = Inr (omap, previous)"
| "offset_map_loop (index_entry_text # rest) omap previous =
     (case py_int (fst (split_index_parts index_entry_text)) of
        None \<Rightarrow> Inl ValueError
      | Some offs \<Rightarrow>
          (let previous1 = (if previous = - 1 then offs else previous)
           in if offs \<noteq> previous1
              then offset_map_loop rest (omap(previous1 \<mapsto> offs)) offs
              else offset_map_loop rest omap previous1))"

definition load_offset_map :: "string \<Rightarrow> byte list \<Rightarrow> error + (int \<rightharpoonup> int)" where
  "load_offset_map index wiki =
     (case offset_map_loop (file_lines index) Map.empty (- 1) of
        Inl e \<Rightarrow> Inl e
      | Inr (omap, previous) \<Rightarrow>
          (let last_offset = get_file_size wiki
           in Inr (omap(previous \<mapsto> last_offset))))"

text \<open>\<open>WikiDb.__init__\<close>, given the content of the two files it opens.\<close>

definition WikiDb_init :: "byte list \<Rightarrow> string \<Rightarrow> error + WikiDb" where
  "WikiDb_init wiki index =
     (case load_offset_map index wiki of
        Inl e \<Rightarrow> Inl e
      | Inr m \<Rightarrow> Inr \<lparr>index_file = index, wiki_file = wiki, offset_map = m\<rparr>)"

subsection \<open>Searching the index\<close>

fun load_index_loop ::
  "(IndexEntry \<Rightarrow> bool) \<Rightarrow> string list \<Rightarrow> IndexEntry list \<Rightarrow> error + IndexEntry list" where
  "load_index_loop predicate [] entries = Inr entries"
| "load_index_loop predicate (index_entry_text # rest) entries =
     (case parse_index_line index_entry_text of
        Inl e \<Rightarrow> Inl e
      | Inr entry \<Rightarrow>
          load_index_loop predicate rest
            (if predicate entry then entries @ [entry] else entries))"

definition load_index :: "WikiDb \<Rightarrow> (IndexEntry \<Rightarrow> bool) \<Rightarrow> error + IndexEntry list" where
  "load_index self predicate = load_index_loop predicate (file_lines (index_file self)) []"

subsection \<open>Loading an article\<close>

text \<open>
  The libraries the source calls are parameters of the model: the bzip2 decompressor
  (\<open>None\<close> when it raises \<open>OSError\<close>), the UTF-8 decoder (\<open>None\<close>: \<open>UnicodeDecodeError\<close>),
  the XML parser \<open>ET.fromstring\<close> (\<open>None\<close>: \<open>ParseError\<close>), and \<open>mwparserfromhell.parse\<close>,
  which takes the text of an element (\<open>None\<close> for an element without text) and builds a
  \<open>Wikicode\<close> object.
\<close>

datatype element =
  Element (elem_tag: string) (elem_text: "string option") (elem_children: "element list")

record 'w libs =
  bz2_decompress :: "byte list \<Rightarrow> byte list option"
  utf8_decode :: "byte list \<Rightarrow> string option"
  xml_fromstring :: "string \<Rightarrow> element option"
  mwp_parse :: "string option \<Rightarrow> 'w"

text \<open>The Python objects a caller of \<open>load_article\<close> could be handed.\<close>

datatype 'w py_value = Str string | Wikicode 'w

text \<open>
  \<open>f.seek(pos)\<close> followed by \<open>f.read(n)\<close> on a binary file: a negative position raises
  \<open>OSError\<close>, a size below \<open>-1\<close> raises \<open>ValueError\<close>, the size \<open>-1\<close> reads to the end of
  the file; otherwise the result is the bytes present from \<open>pos\<close>, at most \<open>n\<close> of them.
\<close>

definition seek_read :: "byte list \<Rightarrow> int \<Rightarrow> int \<Rightarrow> error + byte list" where
  "seek_read f pos n =
     (if pos < 0 then Inl OSError
      else if n < - 1 then Inl ValueError
      else if n = - 1 then Inr (drop (nat pos) f)
      else Inr (take (nat n) (drop (nat pos) f)))"

definition load_chunk :: "'w libs \<Rightarrow> WikiDb \<Rightarrow> IndexEntry \<Rightarrow> error + string" where
  "load_chunk L self entry =
     (let begin = file_offset entry
      in case offset_map self begin of
           None \<Rightarrow> Inl KeyError
         | Some end \<Rightarrow>
             (let chunk_size = end - begin
              in case seek_read (wiki_file self) begin chunk_size of
                   Inl e \<Rightarrow> Inl e
                 | Inr raw \<Rightarrow>
                     (case bz2_decompress L raw of
                        None \<Rightarrow> Inl OSError
                      | Some data \<Rightarrow>
                          (case utf8_decode L data of
                             None \<Rightarrow> Inl UnicodeDecodeError
                           | Some text \<Rightarrow> Inr text))))"

text \<open>
  \<open>e.find(tag)\<close> is the first child of \<open>e\<close> with that tag; \<open>e.find('a/b')\<close> is the first,
  in document order, of the \<open>b\<close> children of the \<open>a\<close> children of \<open>e\<close>.
\<close>

definition element_findall :: "string \<Rightarrow> element \<Rightarrow> element list" where
  "element_findall t e = filter (\<lambda>c. elem_tag c = t) (elem_children e)"

definition element_find :: "string \<Rightarrow> element \<Rightarrow> element option" where
  "element_find t e = (case element_findall t e of [] \<Rightarrow> None | x # _ \<Rightarrow> Some x)"

definition element_find_path :: "string \<Rightarrow> string \<Rightarrow> element \<Rightarrow> element option" where
  "element_find_path a b e =
     (case concat (map (element_findall b) (element_findall a e)) of
        [] \<Rightarrow> None
      | x # _ \<Rightarrow> Some x)"

text \<open>
  \<open>is_match(page)\<close> is \<open>int(page.find('id').text) == entry.page_id\<close>: \<open>find\<close> may return
  \<open>None\<close> (then \<open>.text\<close> raises \<open>AttributeError\<close>), the text may be \<open>None\<close> (then \<open>int\<close> raises
  \<open>TypeError\<close>) or not a number (\<open>ValueError\<close>).
\<close>

definition is_match :: "IndexEntry \<Rightarrow> element \<Rightarrow> error + bool" where
  "is_match entry page =
     (case element_find ''id'' page of
        None \<Rightarrow> Inl AttributeError
      | Some i \<Rightarrow>
          (case elem_text i of
             None \<Rightarrow> Inl TypeError
           | Some t \<Rightarrow>
               (case py_int t of
                  None \<Rightarrow> Inl ValueError
                | Some n \<Rightarrow> Inr (n = page_id entry))))"

text \<open>\<open>next(filter(is_match, root))\<close>: the first child that matches, lazily.\<close>

fun next_match :: "IndexEntry \<Rightarrow> element list \<Rightarrow> error + element" where
  "next_match entry [] = Inl StopIteration"
| "next_match entry (page # pages) =
     (case is_match entry page of
        Inl e \<Rightarrow> Inl e
      | Inr matches \<Rightarrow> if matches then Inr page else next_match entry pages)"

definition load_article :: "'w libs \<Rightarrow> WikiDb \<Rightarrow> IndexEntry \<Rightarrow> error + 'w py_value" where
  "load_article L self entry =
     (case load_chunk L self entry of
        Inl e \<Rightarrow> Inl e
      | Inr chunk \<Rightarrow>
          (case xml_fromstring L (''<root>'' @ chunk @ ''</root>'') of
             None \<Rightarrow> Inl ParseError
           | Some root \<Rightarrow>
               (case next_match entry (elem_children root) of
                  Inl e \<Rightarrow> Inl e
                | Inr page \<Rightarrow>
                    (case element_find_path ''revision'' ''text'' page of
                       None \<Rightarrow> Inl AttributeError
                     | Some t \<Rightarrow>
                         (let page_contents = elem_text t;
                              parsed = mwp_parse L page_contents
                          in Inr (Wikicode parsed))))))"

section \<open>Notions of the specification\<close>

text \<open>
  A base-10 integer as an index line writes it: decimal digits, with an optional minus
  sign, and the integer it denotes.
\<close>

definition base10_integer :: "string \<Rightarrow> bool" where
  "base10_integer s =
     (case s of
        [] \<Rightarrow> False
      | c # cs \<Rightarrow>
          if c = CHR ''-'' then cs \<noteq> [] \<and> list_all is_digit cs
          else list_all is_digit (c # cs))"

definition base10_value :: "string \<Rightarrow> int" where
  "base10_value s =
     (case s of
        [] \<Rightarrow> 0
      | c # cs \<Rightarrow> if c = CHR ''-'' then - decimal_value cs else decimal_value (c # cs))"

text \<open>A query is entirely lower-case when none of its characters is an upper-case one.\<close>

definition entirely_lower :: "string \<Rightarrow> bool" where
  "entirely_lower s = list_all (\<lambda>c. \<not> is_upper c) s"

text \<open>
  The specification's reading of \<open>find_all\<close>: decode every line of the index in file
  order (the first line that does not decode fails the whole scan), then filter.
\<close>

fun decode_lines :: "string list \<Rightarrow> error + IndexEntry list" where
  "decode_lines [] = Inr []"
| "decode_lines (l # ls) =
     (case parse_index_line l of
        Inl e \<Rightarrow> Inl e
      | Inr entry \<Rightarrow>
          (case decode_lines ls of
             Inl e \<Rightarrow> Inl e
           | Inr entries \<Rightarrow> Inr (entry # entries)))"

definition find_all_spec :: "string \<Rightarrow> (IndexEntry \<Rightarrow> bool) \<Rightarrow> error + IndexEntry list" where
  "find_all_spec index predicate =
     (case decode_lines (file_lines index) of
        Inl e \<Rightarrow> Inl e
      | Inr entries \<Rightarrow> Inr (filter predicate entries))"

text \<open>The offset field of an index line, as \<open>__load_offset_map\<close> reads it.\<close>

definition line_offset :: "string \<Rightarrow> int option" where
  "line_offset l = py_int (fst (split_index_parts l))"

text \<open>
  The id of an article record of a chunk: the number in the text of its first \<open>id\<close>
  child, when it has one.
\<close>

definition record_id :: "element \<Rightarrow> int option" where
  "record_id p =
     (case element_find ''id'' p of
        None \<Rightarrow> None
      | Some i \<Rightarrow> (case elem_text i of None \<Rightarrow> None | Some t \<Rightarrow> py_int t))"

section \<open>A sample archive\<close>

text \<open>
  A small index and archive on which the theorems below are instantiated. The archive
  has two chunks, bytes 0 to 2 and bytes 3 to 4; the first holds the articles 1 and 2,
  the second the article 3. The library functions are stand-ins, fixed on the values
  that occur: the decompressor yields the first chunk's data from its first two bytes
  already (the third byte stands for the end-of-stream trailer, which an incremental
  decompressor does not wait for), the decoder decodes ASCII data, the XML parser knows
  the two chunks, and the markup parser makes one text node of a body.
\<close>

definition sample_index :: string where
  "sample_index = ''0:1:Dog'' @ [nl] @ ''0:2:Cat'' @ [nl] @ ''3:3:Ant'' @ [nl]"

definition sample_wiki :: "byte list" where
  "sample_wiki = [1, 2, 3, 4, 5]"

definition sample_page_xml :: "string \<Rightarrow> string \<Rightarrow> string" where
  "sample_page_xml i body =
     ''<page><id>'' @ i @ ''</id><revision><id>900</id><text>'' @ body @
     ''</text></revision></page>''"

definition sample_page :: "string \<Rightarrow> string \<Rightarrow> element" where
  "sample_page i body =
     Element ''page'' None
       [Element ''id'' (Some i) [],
        Element ''revision'' None
          [Element ''id'' (Some ''900'') [], Element ''text'' (Some body) []]]"

definition sample_chunk_1 :: string where
  "sample_chunk_1 = sample_page_xml ''1'' ''Woof'' @ sample_page_xml ''2'' ''Meow''"

definition sample_chunk_2 :: string where
  "sample_chunk_2 = sample_page_xml ''3'' ''Buzz''"

definition sample_root_1 :: element where
  "sample_root_1 =
     Element ''root'' None [sample_page ''1'' ''Woof'', sample_page ''2'' ''Meow'']"

definition sample_root_2 :: element where
  "sample_root_2 = Element ''root'' None [sample_page ''3'' ''Buzz'']"

definition ascii_bytes :: "string \<Rightarrow> byte list" where
  "ascii_bytes s = map of_char s"

definition sample_bz2 :: "byte list \<Rightarrow> byte list option" where
  "sample_bz2 raw =
     (if take 2 raw = [1, 2] then Some (ascii_bytes sample_chunk_1)
      else if raw = [4, 5] then Some (ascii_bytes sample_chunk_2)
      else None)"

definition sample_utf8 :: "byte list \<Rightarrow> string option" where
  "sample_utf8 data =
     (if list_all (\<lambda>b. b < 128) data then Some (map (\<lambda>b. char_of (unat b)) data) else None)"

definition sample_xml :: "string \<Rightarrow> element option" where
  "sample_xml s =
     (if s = ''<root>'' @ sample_chunk_1 @ ''</root>'' then Some sample_root_1
      else if s = ''<root>'' @ sample_chunk_2 @ ''</root>'' then Some sample_root_2
      else None)"

definition sample_mwp :: "string option \<Rightarrow> string list" where
  "sample_mwp t = (case t of None \<Rightarrow> [] | Some s \<Rightarrow> [s])"

definition sample_libs :: "string list libs" where
  "sample_libs =
     \<lparr>bz2_decompress = sample_bz2, utf8_decode = sample_utf8,
      xml_fromstring = sample_xml, mwp_parse = sample_mwp\<rparr>"

definition sample_db :: WikiDb where
  "sample_db =
     \<lparr>index_file = sample_index, wiki_file = sample_wiki,
      offset_map = [0 \<mapsto> 3, 3 \<mapsto> 5]\<rparr>"

text \<open>The same index over an archive that has lost its last three bytes.\<close>

definition truncated_db :: WikiDb where
  "truncated_db =
     \<lparr>index_file = sample_index, wiki_file = [1, 2],
      offset_map = [0 \<mapsto> 3, 3 \<mapsto> 2]\<rparr>"

section \<open>Splitting and decoding an index line\<close>

lemma py_find_absent: "c \<notin> set s \<Longrightarrow> py_find s c = - 1"
  by (induction s) auto

lemma py_find_first: "c \<notin> set a \<Longrightarrow> py_find (a @ c # rest) c = int (length a)"
  by (induction a) (auto simp: Let_def)

lemma py_slice_butlast: "py_slice xs 0 (- 1) = butlast xs"
proof -
  have "nat (int (length xs) - 1) = length xs - 1" by simp
  then show ?thesis
    by (simp add: py_slice_def py_bound_def butlast_conv_take del: nat_diff_distrib')
qed

lemma split_index_parts_sep:
  assumes "CHR '':'' \<notin> set a"
  shows "split_index_parts (a @ CHR '':'' # rest) = (a, rest)"
proof -
  have "nat (int (length a) + 1) = Suc (length a)" by simp
  then show ?thesis
    using assms
    by (simp add: split_index_parts_def py_find_first py_slice_def py_slice_from_def
        py_bound_def)
qed

lemma split_index_parts_no_sep:
  "CHR '':'' \<notin> set s \<Longrightarrow> split_index_parts s = (butlast s, s)"
  by (simp add: split_index_parts_def py_find_absent py_slice_butlast py_slice_from_def
      py_bound_def)

text \<open>
  On a line with at least two separators the two splits isolate the text before the
  first separator and the text between the first and the second one; what follows the
  second separator loses its last character.
\<close>

lemma parse_index_line_fields:
  assumes "CHR '':'' \<notin> set a" and "CHR '':'' \<notin> set b"
  shows "parse_index_line (a @ CHR '':'' # b @ CHR '':'' # c) =
           (case py_int a of
              None \<Rightarrow> Inl ValueError
            | Some fo \<Rightarrow>
                (case py_int b of
                   None \<Rightarrow> Inl ValueError
                 | Some pid \<Rightarrow>
                     Inr \<lparr>file_offset = fo, page_id = pid, article_name = butlast c\<rparr>))"
  using assms
  by (simp add: parse_index_line_def split_index_parts_sep py_slice_butlast
      split: option.splits)

subsection \<open>\<open>int\<close> on decimal numerals\<close>

lemma is_digit_not_space: "is_digit c \<Longrightarrow> \<not> is_space c"
  by (auto simp: is_digit_def is_space_def Let_def)

lemma is_digit_not_sign: "is_digit c \<Longrightarrow> \<not> is_sign c"
  by (auto simp: is_digit_def is_sign_def)

lemma valid_digits_all_digits:
  "ds \<noteq> [] \<Longrightarrow> list_all is_digit ds \<Longrightarrow> valid_digits ds"
  by (induction ds rule: valid_digits.induct) (auto simp: is_digit_def)

lemma py_int_digits:
  assumes "ds \<noteq> []" and "list_all is_digit ds"
  shows "py_int ds = Some (decimal_value ds)"
proof -
  obtain d ds' where ds: "ds = d # ds'" using assms(1) by (cases ds) auto
  have d: "is_digit d" using assms(2) ds by simp
  have all: "\<forall>c\<in>set ds. is_numeral_char c"
    using assms(2) by (auto simp: list_all_iff is_numeral_char_def)
  have tw: "takeWhile is_numeral_char ds = ds" using all by simp
  have dw: "dropWhile is_numeral_char ds = []" using all by simp
  have sp: "dropWhile is_space ds = ds" using d ds by (simp add: is_digit_not_space)
  have flt: "filter is_digit ds = ds" using assms(2) by (simp add: list_all_iff)
  have hd: "\<not> is_sign (hd ds)" "hd ds \<noteq> CHR ''-''"
    using d ds is_digit_not_sign[of d] by (auto simp: is_sign_def)
  show ?thesis
    unfolding py_int_def Let_def sp
    using hd assms(1) by (simp add: tw dw flt valid_digits_all_digits assms)
qed

lemma py_int_minus_digits:
  assumes "ds \<noteq> []" and "list_all is_digit ds"
  shows "py_int (CHR ''-'' # ds) = Some (- decimal_value ds)"
proof -
  have all: "\<forall>c\<in>set ds. is_numeral_char c"
    using assms(2) by (auto simp: list_all_iff is_numeral_char_def)
  have tw: "takeWhile is_numeral_char ds = ds" using all by simp
  have dw: "dropWhile is_numeral_char ds = []" using all by simp
  have sp: "dropWhile is_space (CHR ''-'' # ds) = CHR ''-'' # ds"
    by (simp add: is_space_def)
  have flt: "filter is_digit ds = ds" using assms(2) by (simp add: list_all_iff)
  show ?thesis
    unfolding py_int_def Let_def sp
    by (simp add: tw dw flt valid_digits_all_digits assms is_sign_def)
qed

lemma py_int_base10: "base10_integer s \<Longrightarrow> py_int s = Some (base10_value s)"
  by (auto simp: base10_integer_def base10_value_def py_int_digits py_int_minus_digits
      split: list.splits if_splits)

lemma base10_integer_no_sep: "base10_integer s \<Longrightarrow> CHR '':'' \<notin> set s"
  by (auto simp: base10_integer_def list_all_iff is_digit_def split: list.splits if_splits)

lemmas py_int_eval =
  py_int_def is_space_def is_digit_def is_sign_def is_numeral_char_def decimal_value_def
  digit_value_def

lemmas split_eval =
  split_index_parts_def py_slice_def py_slice_from_def py_bound_def nl_def

subsection \<open>Well-formed lines\<close>

text \<open>
  Claim C3. A line \<open>OFFSET:ID:TITLE\<close> followed by the line terminator, with \<open>OFFSET\<close> and
  \<open>ID\<close> base-10 integers and \<open>TITLE\<close> any text, separators included, decodes to the entry
  whose offset and id are the two integers and whose title is exactly \<open>TITLE\<close>: only the
  first two separators split the line, and the terminator is gone.
\<close>

theorem parse_index_line_well_formed:
  assumes "base10_integer offset_text" and "base10_integer id_text"
  shows "parse_index_line (offset_text @ '':'' @ id_text @ '':'' @ title @ [nl]) =
           Inr \<lparr>file_offset = base10_value offset_text, page_id = base10_value id_text,
                article_name = title\<rparr>"
  using assms parse_index_line_fields [of offset_text id_text "title @ [nl]"]
  by (simp add: base10_integer_no_sep py_int_base10)

theorem parse_index_line_well_formed_witness:
  "base10_integer ''4096'' \<and> base10_integer ''17'' \<and>
   parse_index_line (''4096'' @ '':'' @ ''17'' @ '':'' @ ''C:/System32'' @ [nl]) =
     Inr \<lparr>file_offset = 4096, page_id = 17, article_name = ''C:/System32''\<rparr>"
proof -
  have a: "base10_integer ''4096''" and b: "base10_integer ''17''"
    by (simp_all add: base10_integer_def is_digit_def)
  show ?thesis
    using a b parse_index_line_well_formed [OF a b, of "''C:/System32''"]
    by (simp add: base10_value_def decimal_value_def digit_value_def)
qed

subsection \<open>Lines that do not decode\<close>

text \<open>
  Claim C8, as stated, fails: a line with a single separator whose two parts are
  numbers decodes without any error, because \<open>find\<close> answers \<open>-1\<close> on the remainder and the
  slices then take the remainder itself as id and as title.
\<close>

theorem parse_index_line_one_separator_counterexample:
  "count_list (''12:34'' @ [nl]) CHR '':'' = 1 \<and>
   parse_index_line (''12:34'' @ [nl]) =
     Inr \<lparr>file_offset = 12, page_id = 34, article_name = ''34''\<rparr>"
  by (simp add: parse_index_line_def split_eval py_int_eval)

text \<open>
  Claim C8, amended. On every line with at least two separators, decoding fails with
  \<open>ValueError\<close> (the specification's \<open>MalformedIndexLine\<close>) exactly when the offset field or
  the id field is not an integer for \<open>int\<close>, and it yields an entry exactly when both are.
\<close>

theorem parse_index_line_fails_iff:
  assumes "CHR '':'' \<notin> set offset_text" and "CHR '':'' \<notin> set id_text"
  shows "(parse_index_line (offset_text @ '':'' @ id_text @ '':'' @ title_nl) = Inl ValueError)
           = (py_int offset_text = None \<or> py_int id_text = None) \<and>
         (\<exists>entry. parse_index_line (offset_text @ '':'' @ id_text @ '':'' @ title_nl) = Inr entry)
           = (py_int offset_text \<noteq> None \<and> py_int id_text \<noteq> None)"
  using parse_index_line_fields [OF assms, of title_nl]
  by (auto split: option.splits)

theorem parse_index_line_fails_iff_witness:
  "CHR '':'' \<notin> set ''x1'' \<and> CHR '':'' \<notin> set ''2'' \<and>
   parse_index_line (''x1'' @ '':'' @ ''2'' @ '':'' @ ''Dog'' @ [nl]) = Inl ValueError \<and>
   py_int ''x1'' = None"
proof -
  have a: "CHR '':'' \<notin> set ''x1''" and b: "CHR '':'' \<notin> set ''2''" by simp_all
  have c: "py_int ''x1'' = None" by (simp add: py_int_eval)
  show ?thesis
    using a b c parse_index_line_fails_iff [OF a b, of "''Dog'' @ [nl]"] by simp
qed

subsection \<open>The last character of the title field\<close>

text \<open>
  Claim C10. Decoding removes the last character of the third field whatever that
  character is: on a line with two separators the title is the third field without its
  last character, and on any line that decodes the title is the second part of the
  second split without its last character. A line without a trailing newline therefore
  loses the last character of its title.
\<close>

theorem parse_index_line_drops_last_char:
  assumes "CHR '':'' \<notin> set offset_text" and "CHR '':'' \<notin> set id_text"
    and "py_int offset_text = Some fo" and "py_int id_text = Some pid"
  shows "parse_index_line (offset_text @ '':'' @ id_text @ '':'' @ third) =
           Inr \<lparr>file_offset = fo, page_id = pid, article_name = butlast third\<rparr> \<and>
         (\<forall>line entry. parse_index_line line = Inr entry \<longrightarrow>
            article_name entry =
              butlast (snd (split_index_parts (snd (split_index_parts line)))))"
proof
  show "parse_index_line (offset_text @ '':'' @ id_text @ '':'' @ third) =
          Inr \<lparr>file_offset = fo, page_id = pid, article_name = butlast third\<rparr>"
    using parse_index_line_fields [OF assms(1,2), of third] assms(3,4) by simp
  show "\<forall>line entry. parse_index_line line = Inr entry \<longrightarrow>
          article_name entry =
            butlast (snd (split_index_parts (snd (split_index_parts line))))"
    by (auto simp: parse_index_line_def py_slice_butlast
        split: prod.splits option.splits)
qed

theorem parse_index_line_drops_last_char_witness:
  "CHR '':'' \<notin> set ''0'' \<and> CHR '':'' \<notin> set ''1'' \<and>
   py_int ''0'' = Some 0 \<and> py_int ''1'' = Some 1 \<and>
   parse_index_line ''0:1:Dog'' =
     Inr \<lparr>file_offset = 0, page_id = 1, article_name = ''Do''\<rparr>"
proof -
  have a: "CHR '':'' \<notin> set ''0''" and b: "CHR '':'' \<notin> set ''1''" by simp_all
  have c: "py_int ''0'' = Some 0" and d: "py_int ''1'' = Some 1"
    by (simp_all add: py_int_eval)
  show ?thesis
    using a b c d parse_index_line_drops_last_char [OF a b c d, of "''Dog''"] by simp
qed

section \<open>The offset map\<close>

text \<open>One step of the loop, by what the line's offset is.\<close>

lemma offset_map_loop_same:
  assumes "line_offset l = Some p" and "p \<noteq> - 1"
  shows "offset_map_loop (l # ls) m p = offset_map_loop ls m p"
  using assms by (simp add: line_offset_def)

lemma offset_map_loop_change:
  assumes "line_offset l = Some x" and "p \<noteq> - 1" and "x \<noteq> p"
  shows "offset_map_loop (l # ls) m p = offset_map_loop ls (m(p \<mapsto> x)) x"
  using assms by (simp add: line_offset_def)

lemma offset_map_loop_first:
  assumes "line_offset l = Some x"
  shows "offset_map_loop (l # ls) m (- 1) = offset_map_loop ls m x"
  using assms by (simp add: line_offset_def)

lemma offset_map_loop_chain:
  assumes "map line_offset ls = map Some xs" and "p \<noteq> - 1" and "- 1 \<notin> set xs"
  shows "offset_map_loop ls m p =
           Inr (m(remdups_adj (p # xs) [\<mapsto>] tl (remdups_adj (p # xs))), last (p # xs))"
  using assms
proof (induction ls arbitrary: xs m p)
  case Nil
  then show ?case by simp
next
  case (Cons l ls)
  then obtain x xs' where xs: "xs = x # xs'" by (cases xs) auto
  have lx: "line_offset l = Some x" and rest: "map line_offset ls = map Some xs'"
    using Cons.prems(1) xs by simp_all
  have x: "x \<noteq> - 1" and xs': "- 1 \<notin> set xs'" using Cons.prems(3) xs by auto
  show ?case
  proof (cases "x = p")
    case True
    have "offset_map_loop (l # ls) m p = offset_map_loop ls m p"
      using offset_map_loop_same lx True Cons.prems(2) by simp
    also have "\<dots> = Inr (m(remdups_adj (p # xs') [\<mapsto>] tl (remdups_adj (p # xs'))), last (p # xs'))"
      using Cons.IH [OF rest Cons.prems(2) xs'] .
    finally show ?thesis using True xs by simp
  next
    case False
    obtain R where R: "remdups_adj (x # xs') = x # R"
      by (metis remdups_adj_Cons_alt)
    have "offset_map_loop (l # ls) m p = offset_map_loop ls (m(p \<mapsto> x)) x"
      using offset_map_loop_change [OF lx Cons.prems(2) False] .
    also have "\<dots> = Inr ((m(p \<mapsto> x))(remdups_adj (x # xs') [\<mapsto>] tl (remdups_adj (x # xs'))),
                         last (x # xs'))"
      using Cons.IH [OF rest x xs'] .
    finally show ?thesis using False xs R by simp
  qed
qed

lemma offset_map_loop_from_start:
  assumes "map line_offset ls = map Some xs" and "xs \<noteq> []" and "- 1 \<notin> set xs"
  shows "offset_map_loop ls Map.empty (- 1) =
           Inr (Map.empty(remdups_adj xs [\<mapsto>] tl (remdups_adj xs)), last xs)"
proof -
  obtain x xs' where xs: "xs = x # xs'" using assms(2) by (cases xs) auto
  then obtain l ls' where ls: "ls = l # ls'" using assms(1) by (cases ls) auto
  have lx: "line_offset l = Some x" and rest: "map line_offset ls' = map Some xs'"
    using assms(1) xs ls by simp_all
  have x: "x \<noteq> - 1" and xs': "- 1 \<notin> set xs'" using assms(3) xs by auto
  have "offset_map_loop ls Map.empty (- 1) = offset_map_loop ls' Map.empty x"
    using offset_map_loop_first [OF lx] ls by simp
  then show ?thesis
    using offset_map_loop_chain [OF rest x xs', of Map.empty] xs by simp
qed

lemma remdups_adj_replicate_append:
  "remdups_adj (x # replicate k x @ ys) = remdups_adj (x # ys)"
  by (induction k) simp_all

lemma remdups_adj_groups:
  assumes "sorted_wrt (<) os" and "length ks = length os" and "\<forall>k\<in>set ks. 0 < k"
  shows "remdups_adj (concat (map2 replicate ks os)) = (os :: int list)"
  using assms
proof (induction os arbitrary: ks)
  case Nil
  then show ?case by simp
next
  case (Cons a os)
  then obtain k ks' where ks: "ks = Suc k # ks'"
    by (cases ks) (auto simp: gr0_conv_Suc)
  have IH: "remdups_adj (concat (map2 replicate ks' os)) = os"
    using Cons.IH [of ks'] Cons.prems ks by simp
  show ?case
  proof (cases os)
    case Nil
    then show ?thesis using ks Cons.prems(2) by (simp add: remdups_adj_replicate_append [where ys = "[]", simplified])
  next
    case (Cons b os')
    then obtain j ks'' where ks': "ks' = Suc j # ks''"
      using Cons.prems ks \<open>length ks = length (a # os)\<close> \<open>\<forall>k\<in>set ks. 0 < k\<close>
      by (cases ks') (auto simp: gr0_conv_Suc)
    have ab: "a \<noteq> b" using \<open>sorted_wrt (<) (a # os)\<close> Cons by auto
    obtain rest where rest: "concat (map2 replicate ks' os) = b # rest"
      using ks' Cons by simp
    have "remdups_adj (concat (map2 replicate ks (a # os))) = remdups_adj (a # b # rest)"
      using ks rest by (simp add: remdups_adj_replicate_append)
    also have "\<dots> = a # remdups_adj (b # rest)" using ab by simp
    finally show ?thesis using IH rest by simp
  qed
qed

lemma map_upds_nth:
  assumes "distinct xs" and "i < length xs" and "i < length ys"
  shows "(m(xs [\<mapsto>] ys)) (xs ! i) = Some (ys ! i)"
  using assms
proof (induction xs arbitrary: ys i m)
  case Nil
  then show ?case by simp
next
  case (Cons a as)
  then obtain b bs where ys: "ys = b # bs" by (cases ys) auto
  show ?case
  proof (cases i)
    case 0
    then show ?thesis using Cons.prems ys by simp
  next
    case (Suc j)
    have "(m(a \<mapsto> b, as [\<mapsto>] bs)) (as ! j) = Some (bs ! j)"
      using Cons.prems ys Suc by (intro Cons.IH) simp_all
    then show ?thesis using ys Suc by simp
  qed
qed

text \<open>
  Claim C2. Let the offsets of the index lines, in file order, be the distinct values
  \<open>os = [o0, ..., on]\<close>, strictly increasing, the value \<open>oi\<close> standing on \<open>ki > 0\<close>
  consecutive lines. Offsets are byte offsets, hence not negative. Then the offset map is
  built, it sends each \<open>oi\<close> with \<open>i < n\<close> to \<open>o(i+1)\<close> and \<open>on\<close> to the size of the
  archive, whatever the \<open>ki\<close> are, and it has no other key.
\<close>

theorem load_offset_map_ranges:
  assumes "sorted_wrt (<) os" and "os \<noteq> []" and "0 \<le> hd os"
    and "length ks = length os" and "\<forall>k\<in>set ks. 0 < k"
    and "map line_offset (file_lines index) = map Some (concat (map2 replicate ks os))"
  shows "\<exists>m. load_offset_map index wiki = Inr m \<and>
             (\<forall>i. Suc i < length os \<longrightarrow> m (os ! i) = Some (os ! Suc i)) \<and>
             m (last os) = Some (int (length wiki)) \<and>
             dom m = set os"
proof -
  let ?xs = "concat (map2 replicate ks os)"
  let ?m = "Map.empty(os [\<mapsto>] tl os)"
  have R: "remdups_adj ?xs = os" using remdups_adj_groups assms(1,4,5) by simp
  have ne: "?xs \<noteq> []" by (metis R assms(2) remdups_adj.simps(1))
  have set_eq: "set ?xs = set os" using R remdups_adj_set [of ?xs] by simp
  have last_eq: "last ?xs = last os" using R last_remdups_adj [of ?xs] by simp
  have nonneg: "\<forall>x\<in>set os. 0 \<le> x"
    using assms(1,2,3) by (cases os) (auto simp: less_imp_le)
  have no_sentinel: "- 1 \<notin> set ?xs" using set_eq nonneg by auto
  have loop: "offset_map_loop (file_lines index) Map.empty (- 1) = Inr (?m, last os)"
    using offset_map_loop_from_start [OF assms(6) ne no_sentinel] R last_eq by simp
  have res: "load_offset_map index wiki = Inr (?m(last os \<mapsto> int (length wiki)))"
    by (simp add: load_offset_map_def loop get_file_size_def)
  have dist: "distinct os" using assms(1) strict_sorted_iff by (metis strict_sorted_iff)
  have step: "(?m(last os \<mapsto> int (length wiki))) (os ! i) = Some (os ! Suc i)"
    if i: "Suc i < length os" for i
  proof -
    have "os ! i \<noteq> last os"
      using i dist by (simp add: last_conv_nth assms(2) nth_eq_iff_index_eq)
    moreover have "?m (os ! i) = Some (tl os ! i)"
      using map_upds_nth [OF dist, of i "tl os"] i by simp
    ultimately show ?thesis using i by (simp add: nth_tl)
  qed
  have dom: "dom (?m(last os \<mapsto> int (length wiki))) = set os"
  proof -
    have "take (length os - 1) os = butlast os" by (simp add: butlast_conv_take)
    then have "dom ?m = set (butlast os)" by (simp add: dom_map_upds)
    moreover have "insert (last os) (set (butlast os)) = set os"
    proof -
      have eq: "butlast os @ [last os] = os" using assms(2) by simp
      have "set (butlast os @ [last os]) = insert (last os) (set (butlast os))" by simp
      then show ?thesis unfolding eq by simp
    qed
    ultimately show ?thesis by simp
  qed
  show ?thesis using res step dom by auto
qed

theorem load_offset_map_ranges_witness:
  "sorted_wrt (<) [0, 3 :: int] \<and> [0, 3 :: int] \<noteq> [] \<and> 0 \<le> hd [0, 3 :: int] \<and>
   length [2, 1 :: nat] = length [0, 3 :: int] \<and> 0 < (2 :: nat) \<and> 0 < (1 :: nat) \<and>
   map line_offset (file_lines sample_index) =
     map Some (concat (map2 replicate [2, 1] [0, 3])) \<and>
   (\<exists>m. load_offset_map sample_index sample_wiki = Inr m \<and>
        m 0 = Some 3 \<and> m 3 = Some 5 \<and> dom m = {0, 3})"
proof -
  have h1: "sorted_wrt (<) [0, 3 :: int]" by simp
  have h2: "[0, 3 :: int] \<noteq> []" by simp
  have h3: "0 \<le> hd [0, 3 :: int]" by simp
  have h4: "length [2, 1 :: nat] = length [0, 3 :: int]" by simp
  have h5: "\<forall>k\<in>set [2, 1 :: nat]. 0 < k" by simp
  have h6: "map line_offset (file_lines sample_index) =
              map Some (concat (map2 replicate [2, 1] [0, 3]))"
    by (simp add: sample_index_def line_offset_def split_eval py_int_eval numeral_2_eq_2)
  obtain m where m: "load_offset_map sample_index sample_wiki = Inr m"
    "\<forall>i. Suc i < length [0, 3 :: int] \<longrightarrow> m ([0, 3] ! i) = Some ([0, 3] ! Suc i)"
    "m (last [0, 3]) = Some (int (length sample_wiki))"
    "dom m = set [0, 3]"
    using load_offset_map_ranges [OF h1 h2 h3 h4 h5 h6, of sample_wiki] by blast
  have "m 0 = Some 3" using m(2) [rule_format, of 0] by simp
  moreover have "m 3 = Some 5" using m(3) by (simp add: sample_wiki_def)
  moreover have "dom m = {0, 3}" using m(4) by auto
  ultimately show ?thesis using h1 h2 h3 h4 h6 m(1) by simp
qed

subsection \<open>The empty index\<close>

text \<open>
  Claim C9 asks for the empty map on an index without lines. The loop body never runs,
  \<open>previous\<close> still holds its initial \<open>-1\<close> when the end of the last chunk is recorded,
  and the map that is returned has the one key \<open>-1\<close>, which is no start offset.
\<close>

theorem load_offset_map_empty_index:
  "load_offset_map [] wiki = Inr [- 1 \<mapsto> int (length wiki)] \<and>
   load_offset_map [] wiki \<noteq> Inr Map.empty"
  by (simp add: load_offset_map_def get_file_size_def)

section \<open>Searching the index\<close>

lemma load_index_loop_decode:
  "load_index_loop P ls acc =
     (case decode_lines ls of Inl e \<Rightarrow> Inl e | Inr es \<Rightarrow> Inr (acc @ filter P es))"
  by (induction ls arbitrary: acc) (auto split: sum.splits)

text \<open>
  Claim C4. \<open>load_index\<close> is the filter of the decoded line sequence: it fails where
  decoding the lines fails, and otherwise returns, in file order, the decoded entries
  that satisfy the predicate. On an empty index the result is the empty list.
\<close>

theorem load_index_filters_decoded_lines:
  "load_index self predicate = find_all_spec (index_file self) predicate \<and>
   load_index (self\<lparr>index_file := []\<rparr>) predicate = Inr []"
  by (simp add: load_index_def find_all_spec_def load_index_loop_decode split: sum.splits)

theorem load_index_filters_decoded_lines_witness:
  "find_all_spec sample_index (exact_match_smart_predicate ''dog'') =
     Inr [\<lparr>file_offset = 0, page_id = 1, article_name = ''Dog''\<rparr>] \<and>
   load_index sample_db (exact_match_smart_predicate ''dog'') =
     Inr [\<lparr>file_offset = 0, page_id = 1, article_name = ''Dog''\<rparr>]"
proof -
  have spec: "find_all_spec sample_index (exact_match_smart_predicate ''dog'') =
                Inr [\<lparr>file_offset = 0, page_id = 1, article_name = ''Dog''\<rparr>]"
    by code_simp
  have "index_file sample_db = sample_index" by (simp add: sample_db_def)
  then have "load_index sample_db (exact_match_smart_predicate ''dog'') =
               find_all_spec sample_index (exact_match_smart_predicate ''dog'')"
    using load_index_filters_decoded_lines [of sample_db "exact_match_smart_predicate ''dog''"]
    by simp
  then show ?thesis using spec by simp
qed

subsection \<open>The smart exact-match predicate\<close>

lemma lower_char_fixed: "(lower_char c = c) = (\<not> is_upper c)"
proof (cases "is_upper c")
  case True
  then have "(of_char c :: nat) \<le> 222" by (auto simp: is_upper_def Let_def)
  then have "(of_char (char_of ((of_char c :: nat) + 32)) :: nat) = of_char c + 32" by simp
  then have "char_of ((of_char c :: nat) + 32) \<noteq> c" by (metis add_cancel_right_right zero_neq_numeral)
  then show ?thesis using True by (simp add: lower_char_def)
next
  case False
  then show ?thesis by (simp add: lower_char_def)
qed

lemma py_lower_fixed: "(s = py_lower s) = entirely_lower s"
proof -
  have "(py_lower s = s) = entirely_lower s"
    by (induction s) (auto simp: py_lower_def entirely_lower_def lower_char_fixed)
  then show ?thesis by (simp add: eq_commute)
qed

text \<open>
  Claim C5. When the query is entirely lower-case the predicate accepts exactly the
  entries whose lower-cased title is the lower-cased query; otherwise it accepts exactly
  the entries whose title is the query. So \<open>c++\<close> finds \<open>C++\<close> and \<open>c++\<close>, and \<open>C++\<close> finds
  \<open>C++\<close> but not \<open>c++\<close>.
\<close>

theorem exact_match_smart_predicate_cases:
  "exact_match_smart_predicate query entry =
     (if entirely_lower query then py_lower (article_name entry) = py_lower query
      else article_name entry = query) \<and>
   exact_match_smart_predicate ''c++'' \<lparr>file_offset = fo, page_id = pid, article_name = ''C++''\<rparr> \<and>
   exact_match_smart_predicate ''c++'' \<lparr>file_offset = fo, page_id = pid, article_name = ''c++''\<rparr> \<and>
   exact_match_smart_predicate ''C++'' \<lparr>file_offset = fo, page_id = pid, article_name = ''C++''\<rparr> \<and>
   \<not> exact_match_smart_predicate ''C++'' \<lparr>file_offset = fo, page_id = pid, article_name = ''c++''\<rparr>"
proof -
  have general: "exact_match_smart_predicate query entry =
     (if entirely_lower query then py_lower (article_name entry) = py_lower query
      else article_name entry = query)"
    using py_lower_fixed [of query] by (auto simp: exact_match_smart_predicate_def)
  have examples:
    "exact_match_smart_predicate ''c++'' \<lparr>file_offset = fo, page_id = pid, article_name = ''C++''\<rparr>"
    "exact_match_smart_predicate ''c++'' \<lparr>file_offset = fo, page_id = pid, article_name = ''c++''\<rparr>"
    "exact_match_smart_predicate ''C++'' \<lparr>file_offset = fo, page_id = pid, article_name = ''C++''\<rparr>"
    "\<not> exact_match_smart_predicate ''C++'' \<lparr>file_offset = fo, page_id = pid, article_name = ''c++''\<rparr>"
    by code_simp+
  show ?thesis using general examples by blast
qed

theorem exact_match_smart_predicate_cases_witness:
  "entirely_lower ''wiki'' \<and>
   exact_match_smart_predicate ''wiki''
     \<lparr>file_offset = 0, page_id = 7, article_name = ''Wiki''\<rparr> \<and>
   \<not> entirely_lower ''wiKi'' \<and>
   \<not> exact_match_smart_predicate ''wiKi''
     \<lparr>file_offset = 0, page_id = 7, article_name = ''Wiki''\<rparr>"
proof -
  have a: "entirely_lower ''wiki''" and b: "py_lower ''Wiki'' = py_lower ''wiki''"
    and c: "\<not> entirely_lower ''wiKi''"
    by code_simp+
  have "exact_match_smart_predicate ''wiki''
          \<lparr>file_offset = 0, page_id = 7, article_name = ''Wiki''\<rparr>"
    using a b
      exact_match_smart_predicate_cases
        [of "''wiki''" "\<lparr>file_offset = 0, page_id = 7, article_name = ''Wiki''\<rparr>" 0 0]
    by simp
  moreover have "\<not> exact_match_smart_predicate ''wiKi''
          \<lparr>file_offset = 0, page_id = 7, article_name = ''Wiki''\<rparr>"
    using c
      exact_match_smart_predicate_cases
        [of "''wiKi''" "\<lparr>file_offset = 0, page_id = 7, article_name = ''Wiki''\<rparr>" 0 0]
    by simp
  ultimately show ?thesis using a c by blast
qed

section \<open>Loading an article\<close>

lemma is_match_record_id: "record_id p = Some n \<Longrightarrow> is_match entry p = Inr (n = page_id entry)"
  by (auto simp: record_id_def is_match_def split: option.splits)

lemma next_match_none:
  "\<forall>p\<in>set ps. \<exists>n. record_id p = Some n \<and> n \<noteq> page_id entry \<Longrightarrow>
   next_match entry ps = Inl StopIteration"
proof (induction ps)
  case Nil
  then show ?case by simp
next
  case (Cons p ps)
  then obtain n where "record_id p = Some n" and "n \<noteq> page_id entry" by auto
  then have "is_match entry p = Inr False" by (simp add: is_match_record_id)
  then show ?case using Cons by simp
qed

lemma next_match_first:
  assumes "\<forall>p\<in>set before. \<exists>n. record_id p = Some n \<and> n \<noteq> page_id entry"
    and "record_id page = Some (page_id entry)"
  shows "next_match entry (before @ page # after) = Inr page"
  using assms(1)
proof (induction before)
  case Nil
  then show ?case using assms(2) by (simp add: is_match_record_id)
next
  case (Cons p ps)
  then obtain n where "record_id p = Some n" and "n \<noteq> page_id entry" by auto
  then have "is_match entry p = Inr False" by (simp add: is_match_record_id)
  then show ?case using Cons by simp
qed

lemma load_chunk_unknown_offset:
  "offset_map self (file_offset entry) = None \<Longrightarrow> load_chunk L self entry = Inl KeyError"
  by (simp add: load_chunk_def)

subsection \<open>The sample archive, evaluated\<close>

lemma unat_of_char: "unat (of_char c :: byte) = (of_char c :: nat)"
proof -
  have "(of_char c :: byte) = of_nat (of_char c)" by (simp add: of_nat_of_char)
  then have "unat (of_char c :: byte) = (of_char c :: nat) mod 256"
    by (simp add: unat_of_nat)
  then show ?thesis by simp
qed

lemma sample_utf8_ascii:
  assumes "list_all (\<lambda>c. (of_char c :: nat) < 128) s"
  shows "sample_utf8 (ascii_bytes s) = Some s"
proof -
  have "list_all (\<lambda>b. b < 128) (ascii_bytes s)"
    using assms by (induction s) (simp_all add: ascii_bytes_def word_less_nat_alt unat_of_char)
  moreover have "map (\<lambda>b. char_of (unat b)) (ascii_bytes s) = s"
    by (induction s) (simp_all add: ascii_bytes_def unat_of_char)
  ultimately show ?thesis by (simp add: sample_utf8_def)
qed

lemma sample_decode_1: "sample_utf8 (ascii_bytes sample_chunk_1) = Some sample_chunk_1"
  by (rule sample_utf8_ascii) (simp add: sample_chunk_1_def sample_page_xml_def)

lemmas sample_eval =
  sample_libs_def sample_bz2_def sample_xml_def sample_mwp_def sample_root_1_def
  sample_page_def sample_db_def sample_wiki_def truncated_db_def

lemmas article_eval =
  is_match_def record_id_def element_find_def element_findall_def element_find_path_def

lemma sample_load_chunk:
  "load_chunk sample_libs sample_db \<lparr>file_offset = 0, page_id = pid, article_name = name\<rparr> =
     Inr sample_chunk_1"
  by (simp add: load_chunk_def seek_read_def sample_eval sample_decode_1)

lemma truncated_load_chunk:
  "load_chunk sample_libs truncated_db \<lparr>file_offset = 0, page_id = pid, article_name = name\<rparr> =
     Inr sample_chunk_1"
  by (simp add: load_chunk_def seek_read_def sample_eval sample_decode_1)

lemma sample_parse_chunk_1:
  "xml_fromstring sample_libs (''<root>'' @ sample_chunk_1 @ ''</root>'') = Some sample_root_1"
  by (simp add: sample_libs_def sample_xml_def)

lemma sample_record_ids:
  "record_id (sample_page ''1'' ''Woof'') = Some 1"
  "record_id (sample_page ''2'' ''Meow'') = Some 2"
  by (simp_all add: article_eval sample_page_def py_int_eval)

lemma sample_body: "element_find_path ''revision'' ''text'' (sample_page i body) =
    Some (Element ''text'' (Some body) [])"
  by (simp add: sample_page_def element_find_path_def element_findall_def)

subsection \<open>What is returned\<close>

text \<open>
  Claim C1, as stated, fails: \<open>load_article\<close> hands the body of the record to
  \<open>mwparserfromhell.parse\<close> itself and returns the \<open>Wikicode\<close> object, not the text. On the
  sample archive the entry of \<open>Dog\<close> has its offset in the map and its id in the chunk,
  the body of its record is \<open>Woof\<close>, and the result is the parsed body.
\<close>

theorem load_article_raw_body_counterexample:
  "offset_map sample_db 0 = Some 3 \<and>
   load_chunk sample_libs sample_db \<lparr>file_offset = 0, page_id = 1, article_name = ''Dog''\<rparr> =
     Inr sample_chunk_1 \<and>
   xml_fromstring sample_libs (''<root>'' @ sample_chunk_1 @ ''</root>'') = Some sample_root_1 \<and>
   elem_children sample_root_1 = [sample_page ''1'' ''Woof'', sample_page ''2'' ''Meow''] \<and>
   record_id (sample_page ''1'' ''Woof'') = Some 1 \<and>
   element_find_path ''revision'' ''text'' (sample_page ''1'' ''Woof'') =
     Some (Element ''text'' (Some ''Woof'') []) \<and>
   load_article sample_libs sample_db \<lparr>file_offset = 0, page_id = 1, article_name = ''Dog''\<rparr> =
     Inr (Wikicode [''Woof'']) \<and>
   load_article sample_libs sample_db \<lparr>file_offset = 0, page_id = 1, article_name = ''Dog''\<rparr> \<noteq>
     Inr (Str ''Woof'')"
proof -
  have "offset_map sample_db 0 = Some 3" by (simp add: sample_db_def)
  moreover have "elem_children sample_root_1 =
      [sample_page ''1'' ''Woof'', sample_page ''2'' ''Meow'']"
    by (simp add: sample_root_1_def)
  moreover have "load_article sample_libs sample_db
      \<lparr>file_offset = 0, page_id = 1, article_name = ''Dog''\<rparr> = Inr (Wikicode [''Woof''])"
    unfolding load_article_def sample_load_chunk
    by (simp add: article_eval sample_eval py_int_eval)
  ultimately show ?thesis
    using sample_load_chunk [of 1 "''Dog''"] sample_parse_chunk_1 sample_record_ids(1)
      sample_body [of "''1''" "''Woof''"]
    by simp
qed

text \<open>
  Claim C1, amended. When the chunk of the entry loads and parses, the records before
  the first one whose id is the entry's id have other ids, and that record has a body
  element, \<open>load_article\<close> returns the \<open>Wikicode\<close> that the markup parser builds from the
  text of that body.
\<close>

theorem load_article_returns_parsed_body:
  assumes "load_chunk L self entry = Inr chunk"
    and "xml_fromstring L (''<root>'' @ chunk @ ''</root>'') = Some root"
    and "elem_children root = before @ page # after"
    and "\<forall>p\<in>set before. \<exists>n. record_id p = Some n \<and> n \<noteq> page_id entry"
    and "record_id page = Some (page_id entry)"
    and "element_find_path ''revision'' ''text'' page = Some body"
  shows "load_article L self entry = Inr (Wikicode (mwp_parse L (elem_text body)))"
proof -
  have "next_match entry (elem_children root) = Inr page"
    using next_match_first [OF assms(4,5)] assms(3) by simp
  then show ?thesis
    using assms(1,2,6) by (simp add: load_article_def)
qed

theorem load_article_returns_parsed_body_witness:
  "load_chunk sample_libs sample_db
     \<lparr>file_offset = 0, page_id = 2, article_name = ''Cat''\<rparr> = Inr sample_chunk_1 \<and>
   xml_fromstring sample_libs (''<root>'' @ sample_chunk_1 @ ''</root>'') = Some sample_root_1 \<and>
   elem_children sample_root_1 = [sample_page ''1'' ''Woof''] @ sample_page ''2'' ''Meow'' # [] \<and>
   record_id (sample_page ''1'' ''Woof'') = Some 1 \<and>
   record_id (sample_page ''2'' ''Meow'') = Some 2 \<and>
   element_find_path ''revision'' ''text'' (sample_page ''2'' ''Meow'') =
     Some (Element ''text'' (Some ''Meow'') []) \<and>
   load_article sample_libs sample_db
     \<lparr>file_offset = 0, page_id = 2, article_name = ''Cat''\<rparr> = Inr (Wikicode [''Meow''])"
proof -
  let ?entry = "\<lparr>file_offset = 0, page_id = 2, article_name = ''Cat''\<rparr>"
  have h1: "load_chunk sample_libs sample_db ?entry = Inr sample_chunk_1"
    by (rule sample_load_chunk)
  have h3: "elem_children sample_root_1 =
              [sample_page ''1'' ''Woof''] @ sample_page ''2'' ''Meow'' # []"
    by (simp add: sample_root_1_def)
  have h4: "\<forall>p\<in>set [sample_page ''1'' ''Woof'']. \<exists>n. record_id p = Some n \<and> n \<noteq> page_id ?entry"
    using sample_record_ids(1) by simp
  have h5: "record_id (sample_page ''2'' ''Meow'') = Some (page_id ?entry)"
    using sample_record_ids(2) by simp
  have h6: "element_find_path ''revision'' ''text'' (sample_page ''2'' ''Meow'') =
              Some (Element ''text'' (Some ''Meow'') [])"
    by (rule sample_body)
  have "load_article sample_libs sample_db ?entry =
          Inr (Wikicode (mwp_parse sample_libs (elem_text (Element ''text'' (Some ''Meow'') []))))"
    using load_article_returns_parsed_body [OF h1 sample_parse_chunk_1 h3 h4 h5 h6] .
  then have "load_article sample_libs sample_db ?entry = Inr (Wikicode [''Meow''])"
    by (simp add: sample_libs_def sample_mwp_def)
  then show ?thesis using h1 sample_parse_chunk_1 h3 sample_record_ids h6 by simp
qed

subsection \<open>Failures\<close>

text \<open>
  Claim C6. An entry whose offset is not a key of the offset map fails with \<open>KeyError\<close>
  (\<open>UnknownChunkOffset\<close>). When the chunk loads and parses into article records, each
  with an id, and none of the ids is the entry's, the entry fails with \<open>StopIteration\<close>
  (\<open>ArticleNotFoundInChunk\<close>).
\<close>

theorem load_article_failures:
  "(offset_map self (file_offset entry) = None \<longrightarrow> load_article L self entry = Inl KeyError) \<and>
   (load_chunk L self entry = Inr chunk \<and>
    xml_fromstring L (''<root>'' @ chunk @ ''</root>'') = Some root \<and>
    (\<forall>p\<in>set (elem_children root). \<exists>n. record_id p = Some n \<and> n \<noteq> page_id entry) \<longrightarrow>
    load_article L self entry = Inl StopIteration)"
  by (simp add: load_article_def load_chunk_unknown_offset next_match_none)

theorem load_article_failures_witness:
  "offset_map sample_db 2 = None \<and>
   load_article sample_libs sample_db
     \<lparr>file_offset = 2, page_id = 1, article_name = ''Dog''\<rparr> = Inl KeyError \<and>
   load_chunk sample_libs sample_db
     \<lparr>file_offset = 0, page_id = 9, article_name = ''Dog''\<rparr> = Inr sample_chunk_1 \<and>
   xml_fromstring sample_libs (''<root>'' @ sample_chunk_1 @ ''</root>'') = Some sample_root_1 \<and>
   elem_children sample_root_1 = [sample_page ''1'' ''Woof'', sample_page ''2'' ''Meow''] \<and>
   record_id (sample_page ''1'' ''Woof'') = Some 1 \<and>
   record_id (sample_page ''2'' ''Meow'') = Some 2 \<and>
   load_article sample_libs sample_db
     \<lparr>file_offset = 0, page_id = 9, article_name = ''Dog''\<rparr> = Inl StopIteration"
proof -
  let ?absent = "\<lparr>file_offset = 2, page_id = 1, article_name = ''Dog''\<rparr>"
  let ?entry = "\<lparr>file_offset = 0, page_id = 9, article_name = ''Dog''\<rparr>"
  have k: "offset_map sample_db (file_offset ?absent) = None"
    by (simp add: sample_db_def)
  have first: "load_article sample_libs sample_db ?absent = Inl KeyError"
    using load_article_failures [of sample_db ?absent sample_libs] k by blast
  have h1: "load_chunk sample_libs sample_db ?entry = Inr sample_chunk_1"
    by (rule sample_load_chunk)
  have kids: "elem_children sample_root_1 = [sample_page ''1'' ''Woof'', sample_page ''2'' ''Meow'']"
    by (simp add: sample_root_1_def)
  have h3: "\<forall>p\<in>set (elem_children sample_root_1).
              \<exists>n. record_id p = Some n \<and> n \<noteq> page_id ?entry"
    using sample_record_ids kids by simp
  have second: "load_article sample_libs sample_db ?entry = Inl StopIteration"
    using load_article_failures [of sample_db ?entry sample_libs sample_chunk_1 sample_root_1]
      h1 sample_parse_chunk_1 h3
    by blast
  show ?thesis using k first h1 sample_parse_chunk_1 kids sample_record_ids second by simp
qed

subsection \<open>Reading the chunk\<close>

text \<open>
  Claim C7, as stated, fails: nothing compares the number of bytes that \<open>read\<close> returns
  with the size it was asked for. Opening the sample index over an archive of two
  bytes gives the first chunk the range 0 to 3; two of its three bytes are there, and
  the article is returned all the same.
\<close>

theorem load_article_truncated_archive_counterexample:
  "WikiDb_init [1, 2] sample_index = Inr truncated_db \<and>
   offset_map truncated_db 0 = Some 3 \<and>
   length (drop 0 (wiki_file truncated_db)) < 3 \<and>
   load_article sample_libs truncated_db \<lparr>file_offset = 0, page_id = 1, article_name = ''Dog''\<rparr> =
     Inr (Wikicode [''Woof''])"
proof -
  have "WikiDb_init [1, 2] sample_index = Inr truncated_db"
    by (simp add: WikiDb_init_def load_offset_map_def sample_index_def truncated_db_def
        get_file_size_def split_eval py_int_eval)
  moreover have "offset_map truncated_db 0 = Some 3"
    by (simp add: truncated_db_def)
  moreover have "length (drop 0 (wiki_file truncated_db)) < 3"
    by (simp add: truncated_db_def)
  moreover have "load_article sample_libs truncated_db
      \<lparr>file_offset = 0, page_id = 1, article_name = ''Dog''\<rparr> = Inr (Wikicode [''Woof''])"
    unfolding load_article_def truncated_load_chunk
    by (simp add: article_eval sample_eval py_int_eval)
  ultimately show ?thesis by blast
qed

text \<open>
  Claim C7, amended. For an entry whose offset \<open>begin \<ge> 0\<close> maps to \<open>end \<ge> begin\<close>,
  \<open>load_article\<close> asks for \<open>end - begin\<close> bytes at \<open>begin\<close> and decompresses the bytes the
  archive has there, at most \<open>end - begin\<close> of them: exactly that many when the archive
  reaches \<open>end\<close>, fewer otherwise. A short read raises nothing: the only failures of
  loading the chunk are those of the decompressor and of the decoder.
\<close>

theorem load_chunk_reads_available_bytes:
  assumes "offset_map self (file_offset entry) = Some end"
    and "0 \<le> file_offset entry" and "file_offset entry \<le> end"
  shows "\<exists>raw. raw = take (nat (end - file_offset entry))
                      (drop (nat (file_offset entry)) (wiki_file self)) \<and>
               length raw = min (nat (end - file_offset entry))
                              (length (wiki_file self) - nat (file_offset entry)) \<and>
               load_chunk L self entry =
                 (case bz2_decompress L raw of
                    None \<Rightarrow> Inl OSError
                  | Some data \<Rightarrow>
                      (case utf8_decode L data of
                         None \<Rightarrow> Inl UnicodeDecodeError
                       | Some text \<Rightarrow> Inr text)) \<and>
               (\<forall>e. load_chunk L self entry = Inl e \<longrightarrow> e = OSError \<or> e = UnicodeDecodeError)"
  using assms
  by (auto simp: load_chunk_def seek_read_def Let_def split: option.splits)

theorem load_chunk_reads_available_bytes_witness:
  "offset_map truncated_db (file_offset \<lparr>file_offset = 0, page_id = 1, article_name = ''Dog''\<rparr>)
     = Some 3 \<and>
   length (take (nat (3 - 0)) (drop (nat 0) (wiki_file truncated_db))) = 2 \<and>
   load_chunk sample_libs truncated_db \<lparr>file_offset = 0, page_id = 1, article_name = ''Dog''\<rparr> =
     Inr sample_chunk_1"
proof -
  let ?entry = "\<lparr>file_offset = 0, page_id = 1, article_name = ''Dog''\<rparr>"
  have h1: "offset_map truncated_db (file_offset ?entry) = Some 3"
    by (simp add: truncated_db_def)
  have h2: "0 \<le> file_offset ?entry" and h3: "file_offset ?entry \<le> 3" by simp_all
  obtain raw where raw:
    "raw = take (nat (3 - file_offset ?entry))
             (drop (nat (file_offset ?entry)) (wiki_file truncated_db))"
    "length raw = min (nat (3 - file_offset ?entry))
                    (length (wiki_file truncated_db) - nat (file_offset ?entry))"
    "load_chunk sample_libs truncated_db ?entry =
       (case bz2_decompress sample_libs raw of
          None \<Rightarrow> Inl OSError
        | Some data \<Rightarrow>
            (case utf8_decode sample_libs data of
               None \<Rightarrow> Inl UnicodeDecodeError
             | Some text \<Rightarrow> Inr text))"
    using load_chunk_reads_available_bytes [OF h1 h2 h3, of sample_libs] by blast
  have bytes: "raw = [1, 2]" using raw(1) by (simp add: truncated_db_def)
  have "load_chunk sample_libs truncated_db ?entry = Inr sample_chunk_1"
    using raw(3) unfolding bytes
    by (simp add: sample_libs_def sample_bz2_def sample_decode_1)
  moreover have "length (take (nat (3 - 0)) (drop (nat 0) (wiki_file truncated_db))) = 2"
    using raw(2) bytes by (simp add: truncated_db_def)
  ultimately show ?thesis using h1 by blast
qed

end
